theory Spec2Isabelle
  imports Complex_Main
begin

section \<open>Strings, as Python's \<open>str\<close> methods treat them\<close>

text \<open>
  The model covers ASCII text. Python's \<open>float\<close> is idealised as \<open>real\<close>: rounding,
  overflow, \<open>inf\<close> and \<open>nan\<close> are outside the model. Where the source starts running
  minima and maxima at \<open>float('inf')\<close> and \<open>float('-inf')\<close>, the model has an \<open>option\<close>,
  \<open>None\<close> standing for the infinite start values, which no coordinate of the model equals.
\<close>

datatype error = ValueError | ZeroDivisionError | IndexError

definition is_digit :: "char \<Rightarrow> bool" where
  "is_digit c = (c \<in> set ''0123456789'')"

definition is_word :: "char \<Rightarrow> bool" where
  "is_word c = (c \<in> set ''abcdefghijklmnopqrstuvwxyzABCDEFGHIJKLMNOPQRSTUVWXYZ0123456789_'')"

text \<open>The ASCII characters for which \<open>str.isspace\<close> holds (also the class \<open>\s\<close>).\<close>

definition is_space :: "char \<Rightarrow> bool" where
  "is_space c = (c \<in> set [CHR 0x09, CHR 0x0A, CHR 0x0B, CHR 0x0C, CHR 0x0D,
                            CHR 0x1C, CHR 0x1D, CHR 0x1E, CHR 0x1F, CHR 0x20])"

text \<open>\<open>s.strip()\<close>\<close>

definition strip :: "string \<Rightarrow> string" where
  "strip s = rev (dropWhile is_space (rev (dropWhile is_space s)))"

text \<open>\<open>s.split()\<close>: the maximal runs of non-whitespace characters.\<close>

fun split_acc :: "string \<Rightarrow> string \<Rightarrow> string list" where
  "split_acc cur [] = (if cur = [] then [] else [cur])"
| "split_acc cur (c # cs) =
     (if is_space c then (if cur = [] then split_acc [] cs else cur # split_acc [] cs)
      else split_acc (cur @ [c]) cs)"

definition split_ws :: "string \<Rightarrow> string list" where
  "split_ws s = split_acc [] s"

text \<open>\<open>s.split(sep)\<close> for a separator of one character: the pieces between separators, empty ones kept.\<close>

fun split_on_acc :: "char \<Rightarrow> string \<Rightarrow> string \<Rightarrow> string list" where
  "split_on_acc sep cur [] = [cur]"
| "split_on_acc sep cur (c # cs) =
     (if c = sep then cur # split_on_acc sep [] cs else split_on_acc sep (cur @ [c]) cs)"

definition split_on :: "char \<Rightarrow> string \<Rightarrow> string list" where
  "split_on sep s = split_on_acc sep [] s"

text \<open>\<open>s.replace('px', '')\<close>\<close>

fun replace_px :: "string \<Rightarrow> string" where
  "replace_px [] = []"
| "replace_px [c] = [c]"
| "replace_px (c # d # cs) =
     (if c = CHR ''p'' \<and> d = CHR ''x'' then replace_px cs else c # replace_px (d # cs))"

text \<open>\<open>s.replace(',', ' ')\<close>\<close>

definition replace_comma :: "string \<Rightarrow> string" where
  "replace_comma s = map (\<lambda>c. if c = CHR '','' then CHR '' '' else c) s"

text \<open>\<open>s.lower()\<close>\<close>

definition lower_char :: "char \<Rightarrow> char" where
  "lower_char c =
     (if c \<in> set ''ABCDEFGHIJKLMNOPQRSTUVWXYZ'' then char_of (of_char c + (32::nat)) else c)"

definition lower :: "string \<Rightarrow> string" where
  "lower s = map lower_char s"

section \<open>\<open>float(str)\<close> on decimal literals\<close>

definition digit_val :: "char \<Rightarrow> nat" where
  "digit_val c = of_char c - 48"

definition digits_val :: "string \<Rightarrow> nat" where
  "digits_val ds = foldl (\<lambda>n c. 10 * n + digit_val c) 0 ds"

definition pow10 :: "int \<Rightarrow> real" where
  "pow10 e = (if 0 \<le> e then 10 ^ nat e else 1 / 10 ^ nat (- e))"

text \<open>The sign a literal starts with, as text.\<close>

definition sign_prefix :: "string \<Rightarrow> string" where
  "sign_prefix cs =
     (case cs of [] \<Rightarrow> [] | c # _ \<Rightarrow> if c = CHR ''+'' \<or> c = CHR ''-'' then [c] else [])"

definition sign_val :: "string \<Rightarrow> int" where
  "sign_val sg = (if sg = ''-'' then - 1 else 1)"

text \<open>
  The exponent of a literal: nothing more to read gives exponent 0; otherwise an
  \<open>e\<close> or \<open>E\<close>, an optional sign and at least one digit up to the end of the string.
\<close>

definition exponent_part :: "string \<Rightarrow> int option" where
  "exponent_part r =
     (case r of [] \<Rightarrow> Some 0
      | c # r1 \<Rightarrow>
          if c = CHR ''e'' \<or> c = CHR ''E'' then
            (let sg = sign_prefix r1; ds = drop (length sg) r1
             in if ds \<noteq> [] \<and> list_all is_digit ds
                then Some (sign_val sg * int (digits_val ds)) else None)
          else None)"

text \<open>
  Digit grouping: an underscore of a literal stands between two digits and is left
  out of the text that is read; anywhere else it is an error. The first argument is the
  character before.
\<close>

fun drop_underscores :: "char option \<Rightarrow> string \<Rightarrow> string option" where
  "drop_underscores prev [] = Some []"
| "drop_underscores prev (c # cs) =
     (if c = CHR ''_'' then
        (case prev of
           None \<Rightarrow> None
         | Some p \<Rightarrow>
             (case cs of
                [] \<Rightarrow> None
              | d # _ \<Rightarrow>
                  if is_digit p \<and> is_digit d then drop_underscores (Some c) cs else None))
      else (case drop_underscores (Some c) cs of None \<Rightarrow> None | Some t \<Rightarrow> Some (c # t)))"

text \<open>
  A decimal literal read to the end of the string: an optional sign, digits with an
  optional point (a digit on at least one side of it), an optional exponent.
\<close>

definition float_literal :: "string \<Rightarrow> real option" where
  "float_literal t =
     (let sg = sign_prefix t;
          r0 = drop (length sg) t;
          ip = takeWhile is_digit r0;
          r1 = dropWhile is_digit r0;
          fp = (case r1 of [] \<Rightarrow> [] | c # r \<Rightarrow> if c = CHR ''.'' then takeWhile is_digit r else []);
          r2 = (case r1 of [] \<Rightarrow> [] | c # r \<Rightarrow> if c = CHR ''.'' then dropWhile is_digit r else r1)
      in if ip = [] \<and> fp = [] then None
         else (case exponent_part r2 of
                 None \<Rightarrow> None
               | Some e \<Rightarrow>
                   Some (real_of_int (sign_val sg) * real (digits_val (ip @ fp))
                           * pow10 (e - int (length fp)))))"

text \<open>
  \<open>float(s)\<close> for a string \<open>s\<close>: surrounding whitespace is stripped and the rest is read
  as a decimal literal. \<open>None\<close> is the \<open>ValueError\<close> that \<open>float\<close> raises. The literals
  \<open>inf\<close>, \<open>infinity\<close> and \<open>nan\<close> have no value in \<open>real\<close> and are not read.
\<close>

definition py_float :: "string \<Rightarrow> real option" where
  "py_float s =
     (case drop_underscores None (strip s) of
        None \<Rightarrow> None
      | Some t \<Rightarrow> float_literal t)"

section \<open>The two regular expressions of \<open>parse_transform\<close>\<close>

text \<open>
  \<open>float_re = [-+]?\d*\.?\d+(?:[eE][-+]?\d+)?\<close>. The text the optional exponent group
  matches at the head of a string (empty when the group matches nothing):
\<close>

definition match_exp :: "string \<Rightarrow> string" where
  "match_exp r =
     (case r of [] \<Rightarrow> []
      | c # r1 \<Rightarrow>
          if c = CHR ''e'' \<or> c = CHR ''E'' then
            (let sg = sign_prefix r1; ds = takeWhile is_digit (drop (length sg) r1)
             in if ds = [] then [] else c # sg @ ds)
          else [])"

text \<open>
  The match of \<open>float_re\<close> at the head of a string, as the backtracking matcher finds it:
  the sign if there is one, then the longest digit run; a point is taken when a digit
  follows it, and without one the digit run itself must be non-empty.
\<close>

definition match_float :: "string \<Rightarrow> string option" where
  "match_float cs =
     (let sg = sign_prefix cs;
          r0 = drop (length sg) cs;
          ds = takeWhile is_digit r0;
          r1 = dropWhile is_digit r0;
          fs = (case r1 of [] \<Rightarrow> [] | c # r2 \<Rightarrow> if c = CHR ''.'' then takeWhile is_digit r2 else [])
      in if fs \<noteq> [] then
           Some (sg @ ds @ CHR ''.'' # fs @ match_exp (drop (Suc (length fs)) r1))
         else if ds \<noteq> [] then Some (sg @ ds @ match_exp r1)
         else None)"

text \<open>
  \<open>re.findall(float_re, s)\<close>: the non-overlapping matches from left to right. The
  first argument counts the characters of the last match still to be passed over.
\<close>

fun findall_float :: "nat \<Rightarrow> string \<Rightarrow> string list" where
  "findall_float k [] = []"
| "findall_float (Suc k) (c # cs) = findall_float k cs"
| "findall_float 0 (c # cs) =
     (case match_float (c # cs) of
        None \<Rightarrow> findall_float 0 cs
      | Some m \<Rightarrow> m # findall_float (length m - 1) cs)"

text \<open>
  The match of \<open>(\w+)\s*\(([^)]*)\)\<close> at the head of a string: its two groups and the
  length of the whole match.
\<close>

definition match_func :: "string \<Rightarrow> ((string \<times> string) \<times> nat) option" where
  "match_func cs =
     (let name = takeWhile is_word cs;
          r1 = dropWhile is_word cs;
          sp = takeWhile is_space r1;
          r2 = dropWhile is_space r1
      in if name = [] then None
         else (case r2 of
                 [] \<Rightarrow> None
               | c # r3 \<Rightarrow>
                   if c \<noteq> CHR ''('' then None
                   else (let args = takeWhile (\<lambda>c. c \<noteq> CHR '')'') r3;
                             r4 = dropWhile (\<lambda>c. c \<noteq> CHR '')'') r3
                         in if r4 = [] then None
                            else Some ((name, args),
                                       length name + length sp + 1 + length args + 1))))"

fun findall_func :: "nat \<Rightarrow> string \<Rightarrow> (string \<times> string) list" where
  "findall_func k [] = []"
| "findall_func (Suc k) (c # cs) = findall_func k cs"
| "findall_func 0 (c # cs) =
     (case match_func (c # cs) of
        None \<Rightarrow> findall_func 0 cs
      | Some (g, n) \<Rightarrow> g # findall_func (n - 1) cs)"

section \<open>Transform utilities of \<open>read_svg\<close>\<close>

text \<open>A matrix is the source's list of three rows of three numbers.\<close>

type_synonym row = "real \<times> real \<times> real"
type_synonym mat = "row \<times> row \<times> row"

definition mat_identity :: mat where
  "mat_identity = ((1, 0, 0), (0, 1, 0), (0, 0, 1))"

fun mat_mul :: "mat \<Rightarrow> mat \<Rightarrow> mat" where
  "mat_mul ((a00, a01, a02), (a10, a11, a12), (a20, a21, a22))
           ((b00, b01, b02), (b10, b11, b12), (b20, b21, b22)) =
     ((a00*b00 + a01*b10 + a02*b20, a00*b01 + a01*b11 + a02*b21, a00*b02 + a01*b12 + a02*b22),
      (a10*b00 + a11*b10 + a12*b20, a10*b01 + a11*b11 + a12*b21, a10*b02 + a11*b12 + a12*b22),
      (a20*b00 + a21*b10 + a22*b20, a20*b01 + a21*b11 + a22*b21, a20*b02 + a21*b12 + a22*b22))"

fun mat_apply :: "mat \<Rightarrow> real \<Rightarrow> real \<Rightarrow> real \<times> real" where
  "mat_apply ((m00, m01, m02), (m10, m11, m12), r2) x y =
     (m00*x + m01*y + m02, m10*x + m11*y + m12)"

text \<open>\<open>[float(v) for v in re.findall(float_re, s)]\<close>\<close>

definition parse_numbers :: "string \<Rightarrow> error + real list" where
  "parse_numbers s =
     (case those (map py_float (findall_float 0 s)) of
        None \<Rightarrow> Inl ValueError
      | Some vals \<Rightarrow> Inr vals)"

definition radians :: "real \<Rightarrow> real" where
  "radians x = x * pi / 180"

text \<open>The matrix \<open>tm\<close> that one pass of the loop of \<open>parse_transform\<close> builds.\<close>

definition transform_matrix :: "string \<Rightarrow> real list \<Rightarrow> mat" where
  "transform_matrix name vals =
     (if name = ''translate'' then
        (let tx = (if length vals > 0 then vals ! 0 else 0);
             ty = (if length vals > 1 then vals ! 1 else 0)
         in ((1, 0, tx), (0, 1, ty), (0, 0, 1)))
      else if name = ''scale'' then
        (let sx = (if length vals > 0 then vals ! 0 else 1);
             sy = (if length vals > 1 then vals ! 1 else sx)
         in ((sx, 0, 0), (0, sy, 0), (0, 0, 1)))
      else if name = ''rotate'' then
        (let ang = (if length vals > 0 then vals ! 0 else 0);
             cx = (if length vals > 2 then vals ! 1 else 0);
             cy = (if length vals > 2 then vals ! 2 else 0);
             a = cos (radians ang);
             b = sin (radians ang)
         in if length vals > 2 then
              mat_mul (mat_mul ((1, 0, cx), (0, 1, cy), (0, 0, 1))
                               ((a, - b, 0), (b, a, 0), (0, 0, 1)))
                      ((1, 0, - cx), (0, 1, - cy), (0, 0, 1))
            else ((a, - b, 0), (b, a, 0), (0, 0, 1)))
      else if name = ''matrix'' \<and> length vals \<ge> 6 then
        (let a = vals ! 0; b = vals ! 1; c = vals ! 2; d = vals ! 3; e = vals ! 4; f = vals ! 5
         in ((a, c, e), (b, d, f), (0, 0, 1)))
      else mat_identity)"

text \<open>The loop of \<open>parse_transform\<close> over the matches, with the running matrix \<open>m\<close>.\<close>

fun transform_loop :: "(string \<times> string) list \<Rightarrow> mat \<Rightarrow> error + mat" where
  "transform_loop [] m = Inr m"
| "transform_loop ((func, args_str) # rest) m =
     (case parse_numbers args_str of
        Inl e \<Rightarrow> Inl e
      | Inr vals \<Rightarrow> transform_loop rest (mat_mul (transform_matrix (lower func) vals) m))"

definition parse_transform :: "string \<Rightarrow> error + mat" where
  "parse_transform s =
     (if s = [] then Inr mat_identity
      else transform_loop (findall_func 0 (strip s)) mat_identity)"

section \<open>The document, as \<open>svg2paths2\<close> returns it\<close>

text \<open>
  A segment offers \<open>length()\<close> and \<open>point(t)\<close>, a point being a complex number; a path
  offers \<open>bbox()\<close>, which gives \<open>(x0, x1, y0, y1)\<close> or raises (\<open>None\<close>), and
  \<open>continuous_subpaths()\<close>. Attributes are dictionaries from names to strings.
\<close>

record segment =
  seg_length :: real
  seg_point :: "real \<Rightarrow> complex"

record path =
  bbox :: "(real \<times> real \<times> real \<times> real) option"
  continuous_subpaths :: "segment list list"

type_synonym attr = "string \<rightharpoonup> string"

record document =
  paths :: "path list"
  attrs :: "attr list"
  svg_attr :: attr

type_synonym vbox = "real \<times> real \<times> real \<times> real"
type_synonym ring = "(real \<times> real) list"

section \<open>\<open>read_svg\<close>: size and viewbox\<close>

text \<open>\<open>_to_float(value)\<close> with its default \<open>0.0\<close>.\<close>

definition to_float :: "string option \<Rightarrow> real" where
  "to_float v =
     (case v of
        None \<Rightarrow> 0
      | Some s \<Rightarrow> (case py_float (strip (replace_px s)) of None \<Rightarrow> 0 | Some x \<Rightarrow> x))"

text \<open>\<open>svg_attr.get('viewBox') or svg_attr.get('viewbox')\<close>\<close>

definition vb_attr_of :: "attr \<Rightarrow> string option" where
  "vb_attr_of sa =
     (case sa ''viewBox'' of
        None \<Rightarrow> sa ''viewbox''
      | Some v \<Rightarrow> if v \<noteq> [] then Some v else sa ''viewbox'')"

text \<open>
  The loop over \<open>path.bbox()\<close>. The four running bounds leave their infinite start
  values together, at the first path whose \<open>bbox()\<close> returns: the state is \<open>None\<close>
  before that and \<open>Some (min_x, min_y, max_x, max_y)\<close> after.
\<close>

fun bbox_loop :: "path list \<Rightarrow> vbox option \<Rightarrow> vbox option" where
  "bbox_loop [] acc = acc"
| "bbox_loop (p # ps) acc =
     (case bbox p of
        None \<Rightarrow> bbox_loop ps acc
      | Some (x0, x1, y0, y1) \<Rightarrow>
          (case acc of
             None \<Rightarrow> bbox_loop ps (Some (x0, y0, x1, y1))
           | Some (min_x, min_y, max_x, max_y) \<Rightarrow>
               bbox_loop ps (Some (min min_x x0, min min_y y0, max max_x x1, max max_y y1))))"

text \<open>The branch of \<open>read_svg\<close> taken when no viewBox attribute is usable as a string.\<close>

definition viewbox_without_attr :: "path list \<Rightarrow> real \<Rightarrow> real \<Rightarrow> vbox" where
  "viewbox_without_attr ps width height =
     (if width > 0 \<and> height > 0 then (0, 0, width, height)
      else (case bbox_loop ps None of
              None \<Rightarrow> (0, 0, 1000, 1000)
            | Some (min_x, min_y, max_x, max_y) \<Rightarrow> (min_x, min_y, max_x, max_y)))"

text \<open>Lines 23 to 52 of \<open>read_svg\<close>: the value of \<open>viewbox\<close>.\<close>

definition read_viewbox :: "attr \<Rightarrow> path list \<Rightarrow> real \<Rightarrow> real \<Rightarrow> error + vbox" where
  "read_viewbox sa ps width height =
     (case vb_attr_of sa of
        None \<Rightarrow> Inr (viewbox_without_attr ps width height)
      | Some vb_attr \<Rightarrow>
          if vb_attr \<noteq> [] then
            (let parts = split_ws (replace_comma vb_attr)
             in if length parts = 4 then
                  (case (py_float (parts ! 0), py_float (parts ! 1),
                         py_float (parts ! 2), py_float (parts ! 3)) of
                     (Some f0, Some f1, Some f2, Some f3) \<Rightarrow> Inr (f0, f1, f2, f3)
                   | _ \<Rightarrow> Inl ValueError)
                else Inr (0, 0, width, height))
          else Inr (viewbox_without_attr ps width height))"

section \<open>\<open>read_svg\<close>: polygons\<close>

text \<open>The expansion of an inline style into the attribute dictionary.\<close>

fun expand_style :: "string list \<Rightarrow> attr \<Rightarrow> attr" where
  "expand_style [] a = a"
| "expand_style (item # items) a =
     (if item = [] then expand_style items a
      else if CHR '':'' \<in> set item then
        (let k = takeWhile (\<lambda>c. c \<noteq> CHR '':'') item;
             v = drop 1 (dropWhile (\<lambda>c. c \<noteq> CHR '':'') item)
         in expand_style items (a(strip k \<mapsto> strip v)))
      else expand_style items a)"

definition normalize_attr :: "attr \<Rightarrow> attr" where
  "normalize_attr a =
     (let a1 = (case a ''style'' of
                  None \<Rightarrow> a
                | Some st \<Rightarrow> expand_style (split_on CHR '';'' st) a)
      in case a1 ''stroke'' of
           Some _ \<Rightarrow> a1
         | None \<Rightarrow> (case a1 ''fill'' of None \<Rightarrow> a1 | Some f \<Rightarrow> a1(''stroke'' \<mapsto> f)))"

text \<open>
  \<open>np.linspace(0, 1, num, endpoint=True)\<close>: \<open>num\<close> values \<open>i * step\<close> with
  \<open>step = 1 / (num - 1)\<close>, the last one being 1; a single value is the start, 0.
\<close>

definition linspace01 :: "nat \<Rightarrow> real list" where
  "linspace01 num =
     (if num = 1 then [0] else map (\<lambda>i. real i / real (num - 1)) [0..<num])"

text \<open>\<open>max(2, ceil(seg.length()/seg_unit))\<close>\<close>

definition interp_num :: "segment \<Rightarrow> real \<Rightarrow> error + int" where
  "interp_num seg seg_unit =
     (if seg_unit = 0 then Inl ZeroDivisionError
      else Inr (max 2 \<lceil>seg_length seg / seg_unit\<rceil>))"

text \<open>\<open>seg.point(np.linspace(0, 1, interp_num, endpoint=True))\<close>\<close>

definition sample_segment :: "segment \<Rightarrow> real \<Rightarrow> error + complex list" where
  "sample_segment seg seg_unit =
     (case interp_num seg seg_unit of
        Inl e \<Rightarrow> Inl e
      | Inr n \<Rightarrow> Inr (map (seg_point seg) (linspace01 (nat n))))"

text \<open>The loop over the segments of one subpath, collecting the list \<open>points\<close> of arrays.\<close>

fun sample_segments :: "segment list \<Rightarrow> real \<Rightarrow> error + complex list list" where
  "sample_segments [] seg_unit = Inr []"
| "sample_segments (seg # segs) seg_unit =
     (case sample_segment seg seg_unit of
        Inl e \<Rightarrow> Inl e
      | Inr ps \<Rightarrow>
          (case sample_segments segs seg_unit of
             Inl e \<Rightarrow> Inl e
           | Inr rest \<Rightarrow> Inr (ps # rest)))"

text \<open>
  One ring: \<open>np.concatenate\<close> raises \<open>ValueError\<close> on an empty list of arrays, and
  \<open>points[0]\<close> raises \<open>IndexError\<close> on an empty array.
\<close>

definition make_ring :: "mat \<Rightarrow> segment list \<Rightarrow> real \<Rightarrow> error + ring" where
  "make_ring m subpath seg_unit =
     (case sample_segments subpath seg_unit of
        Inl e \<Rightarrow> Inl e
      | Inr arrays \<Rightarrow>
          if arrays = [] then Inl ValueError
          else (let points = concat arrays
                in if points = [] then Inl IndexError
                   else Inr (map (\<lambda>p. mat_apply m (Re p) (Im p)) (points @ [points ! 0]))))"

fun make_rings :: "mat \<Rightarrow> segment list list \<Rightarrow> real \<Rightarrow> error + ring list" where
  "make_rings m [] seg_unit = Inr []"
| "make_rings m (subpath # rest) seg_unit =
     (case make_ring m subpath seg_unit of
        Inl e \<Rightarrow> Inl e
      | Inr r \<Rightarrow>
          (case make_rings m rest seg_unit of
             Inl e \<Rightarrow> Inl e
           | Inr rs \<Rightarrow> Inr (r # rs)))"

text \<open>One pass of the loop over \<open>zip(paths, attrs)\<close>: the polygon and the new attributes.\<close>

definition path_polygon :: "path \<Rightarrow> attr \<Rightarrow> real \<Rightarrow> error + (ring list \<times> attr)" where
  "path_polygon p a seg_unit =
     (let a' = normalize_attr a
      in case parse_transform (case a' ''transform'' of None \<Rightarrow> [] | Some s \<Rightarrow> s) of
           Inl e \<Rightarrow> Inl e
         | Inr m \<Rightarrow>
             (case make_rings m (continuous_subpaths p) seg_unit of
                Inl e \<Rightarrow> Inl e
              | Inr poly \<Rightarrow> Inr (poly, a')))"

fun build_polys :: "(path \<times> attr) list \<Rightarrow> real \<Rightarrow> error + (ring list list \<times> attr list)" where
  "build_polys [] seg_unit = Inr ([], [])"
| "build_polys ((p, a) # rest) seg_unit =
     (case path_polygon p a seg_unit of
        Inl e \<Rightarrow> Inl e
      | Inr (poly, a') \<Rightarrow>
          (case build_polys rest seg_unit of
             Inl e \<Rightarrow> Inl e
           | Inr (polys, new_attrs) \<Rightarrow> Inr (poly # polys, a' # new_attrs)))"

text \<open>\<open>read_svg\<close>: \<open>(transformed_polys, new_attrs, svg_size, viewbox)\<close>.\<close>

definition read_svg ::
  "document \<Rightarrow> real \<Rightarrow> error + (ring list list \<times> attr list \<times> (real \<times> real) \<times> vbox)" where
  "read_svg doc seg_unit =
     (let width = to_float (svg_attr doc ''width'');
          height = to_float (svg_attr doc ''height'')
      in case read_viewbox (svg_attr doc) (paths doc) width height of
           Inl e \<Rightarrow> Inl e
         | Inr viewbox \<Rightarrow>
             (case build_polys (zip (paths doc) (attrs doc)) seg_unit of
                Inl e \<Rightarrow> Inl e
              | Inr (polys, new_attrs) \<Rightarrow> Inr (polys, new_attrs, (width, height), viewbox)))"

section \<open>\<open>compute_bounds\<close> and \<open>main\<close>\<close>

text \<open>
  One point of \<open>compute_bounds\<close>. As in \<open>bbox_loop\<close>, the four bounds leave their
  infinite start values together at the first point.
\<close>

fun bounds_step :: "vbox option \<Rightarrow> real \<times> real \<Rightarrow> vbox option" where
  "bounds_step None (x, y) = Some (x, y, x, y)"
| "bounds_step (Some (min_x, min_y, max_x, max_y)) (x, y) =
     Some (if x < min_x then x else min_x, if y < min_y then y else min_y,
           if x > max_x then x else max_x, if y > max_y then y else max_y)"

definition compute_bounds :: "ring list list \<Rightarrow> vbox" where
  "compute_bounds polys =
     (case foldl bounds_step None (concat (concat polys)) of
        None \<Rightarrow> (0, 0, 1000, 1000)
      | Some (min_x, min_y, max_x, max_y) \<Rightarrow> (min_x, min_y, max_x, max_y))"

text \<open>Lines 213 to 217 of \<open>main\<close>: the rectangle \<open>vb\<close> the mapping is derived from.\<close>

definition main_vb :: "real \<times> real \<Rightarrow> ring list list \<Rightarrow> vbox" where
  "main_vb svg_size polys =
     (case svg_size of (width, height) \<Rightarrow>
        if width > 0 \<and> height > 0 then (0, 0, width, height) else compute_bounds polys)"

text \<open>\<open>main\<close> calls \<open>read_svg()\<close> with its defaults, so with \<open>seg_unit = 8\<close>.\<close>

definition main_extent :: "document \<Rightarrow> error + vbox" where
  "main_extent doc =
     (case read_svg doc 8 of
        Inl e \<Rightarrow> Inl e
      | Inr (polys, new_attrs, svg_size, viewbox) \<Rightarrow> Inr (main_vb svg_size polys))"

definition py_div :: "real \<Rightarrow> real \<Rightarrow> error + real" where
  "py_div a b = (if b = 0 then Inl ZeroDivisionError else Inr (a / b))"

text \<open>
  Lines 219 to 240 of \<open>main\<close>: the arguments of \<open>window.setup\<close> and of
  \<open>setworldcoordinates\<close>, from \<open>vb\<close> and the window's width and height.
\<close>

definition coordinate_mapping ::
  "vbox \<Rightarrow> int \<Rightarrow> int \<Rightarrow> error + ((real \<times> real) \<times> vbox)" where
  "coordinate_mapping vb window_width window_height =
     (case vb of (vb0, vb1, vb2, vb3) \<Rightarrow>
        (let vb_w = max (vb2 - vb0) (1 / 10 ^ 6);
             vb_h = max (vb3 - vb1) (1 / 10 ^ 6)
         in case py_div vb_w vb_h of
              Inl e \<Rightarrow> Inl e
            | Inr ar \<Rightarrow>
                (let win_m = real_of_int (min window_width window_height)
                 in case (if ar > 1 then Inr (win_m * ar, win_m)
                          else (case py_div win_m ar of
                                  Inl e \<Rightarrow> Inl e
                                | Inr q \<Rightarrow> Inr (win_m, q))) of
                      Inl e \<Rightarrow> Inl e
                    | Inr window \<Rightarrow>
                        (let margin = 2 / 100;
                             dx = vb_w * margin;
                             dy = vb_h * margin;
                             llx = vb0 - dx;
                             lly = - (vb3 + dy);
                             urx = vb2 + dx;
                             ury = - (vb1 - dy)
                         in Inr (window, (llx, lly, urx, ury))))))"


section \<open>Notions of the specification\<close>

text \<open>
  The ops of a transform list in textual order, each with its name in lower case and
  its numbers.
\<close>

fun transform_ops_of :: "(string \<times> string) list \<Rightarrow> error + (string \<times> real list) list" where
  "transform_ops_of [] = Inr []"
| "transform_ops_of ((func, args_str) # rest) =
     (case parse_numbers args_str of
        Inl e \<Rightarrow> Inl e
      | Inr vals \<Rightarrow>
          (case transform_ops_of rest of
             Inl e \<Rightarrow> Inl e
           | Inr ops \<Rightarrow> Inr ((lower func, vals) # ops)))"

definition transform_ops :: "string \<Rightarrow> error + (string \<times> real list) list" where
  "transform_ops s = transform_ops_of (findall_func 0 (strip s))"

text \<open>The recognized ops: the three named functions, and \<open>matrix\<close> when it is not skipped.\<close>

definition recognized :: "string \<times> real list \<Rightarrow> bool" where
  "recognized op =
     (case op of (name, vals) \<Rightarrow>
        name = ''translate'' \<or> name = ''scale'' \<or> name = ''rotate'' \<or>
        (name = ''matrix'' \<and> length vals \<ge> 6))"

definition op_matrix :: "string \<times> real list \<Rightarrow> mat" where
  "op_matrix op = (case op of (name, vals) \<Rightarrow> transform_matrix name vals)"

text \<open>For matrices \<open>M1, ..., Mn\<close> the product \<open>Mn \<times> ... \<times> M1\<close>.\<close>

definition product_last_first :: "mat list \<Rightarrow> mat" where
  "product_last_first ms = foldr mat_mul (rev ms) mat_identity"

text \<open>The point \<open>Mn (... (M1 p))\<close>: the matrices applied to a point one after the other.\<close>

definition apply_in_order :: "mat list \<Rightarrow> real \<times> real \<Rightarrow> real \<times> real" where
  "apply_in_order ms p = foldl (\<lambda>q m. mat_apply m (fst q) (snd q)) p ms"

definition affine :: "mat \<Rightarrow> bool" where
  "affine m = (snd (snd m) = (0, 0, 1))"

text \<open>The width and height of an extent, floored to the epsilon, and their ratio.\<close>

definition guarded_width :: "vbox \<Rightarrow> real" where
  "guarded_width vb = (case vb of (vb0, vb1, vb2, vb3) \<Rightarrow> max (vb2 - vb0) (1 / 10 ^ 6))"

definition guarded_height :: "vbox \<Rightarrow> real" where
  "guarded_height vb = (case vb of (vb0, vb1, vb2, vb3) \<Rightarrow> max (vb3 - vb1) (1 / 10 ^ 6))"

definition aspect_ratio :: "vbox \<Rightarrow> real" where
  "aspect_ratio vb = guarded_width vb / guarded_height vb"

text \<open>
  What the specification says of the window size: the larger of the window's two
  dimensions is in the new size as it was.
\<close>

definition larger_dimension_unchanged :: "int \<Rightarrow> int \<Rightarrow> real \<times> real \<Rightarrow> bool" where
  "larger_dimension_unchanged window_width window_height window =
     (if window_width \<ge> window_height then fst window = real_of_int window_width
      else snd window = real_of_int window_height)"

definition closed_ring :: "ring \<Rightarrow> bool" where
  "closed_ring r = (r \<noteq> [] \<and> last r = hd r)"

text \<open>The shapes of the pieces of a match of \<open>float_re\<close>, for the proofs about it.\<close>

definition is_sign :: "string \<Rightarrow> bool" where
  "is_sign sg = (sg = [] \<or> sg = ''+'' \<or> sg = ''-'')"

definition is_exp :: "string \<Rightarrow> bool" where
  "is_exp ex =
     (ex = [] \<or>
      (\<exists>c sg ds. ex = c # sg @ ds \<and> (c = CHR ''e'' \<or> c = CHR ''E'') \<and>
                  is_sign sg \<and> ds \<noteq> [] \<and> list_all is_digit ds))"

section \<open>Example documents\<close>

text \<open>
  A segment of length 17 along the x axis and a segment of length 0; a path of two
  straight segments, translated by its \<open>transform\<close> attribute.
\<close>

definition line17 :: segment where
  "line17 = \<lparr>seg_length = 17, seg_point = (\<lambda>t. Complex (17 * t) 0)\<rparr>"

definition dot0 :: segment where
  "dot0 = \<lparr>seg_length = 0, seg_point = (\<lambda>t. Complex 3 4)\<rparr>"

definition example_path :: path where
  "example_path =
     \<lparr>bbox = Some (0, 17, 0, 4),
      continuous_subpaths =
        [[line17, \<lparr>seg_length = 4, seg_point = (\<lambda>t. Complex 17 (4 * t))\<rparr>]]\<rparr>"

definition example_doc :: document where
  "example_doc =
     \<lparr>paths = [example_path],
      attrs = [[''transform'' \<mapsto> ''translate(5,10)'']],
      svg_attr = Map.empty\<rparr>"

text \<open>The document of the specification's example: a viewBox and a width and height.\<close>

definition doc_viewbox_and_size :: document where
  "doc_viewbox_and_size =
     \<lparr>paths = [], attrs = [],
      svg_attr = [''viewBox'' \<mapsto> ''0 0 200 100'', ''width'' \<mapsto> ''100'',
                  ''height'' \<mapsto> ''50'']\<rparr>"

text \<open>A document whose viewBox has three numbers, with no width and no height.\<close>

definition doc_short_viewbox :: document where
  "doc_short_viewbox =
     \<lparr>paths = [\<lparr>bbox = Some (1, 5, 2, 6),
                 continuous_subpaths =
                   [[\<lparr>seg_length = 4, seg_point = (\<lambda>t. Complex (1 + 4 * t) 2)\<rparr>,
                     \<lparr>seg_length = 4, seg_point = (\<lambda>t. Complex 5 (2 + 4 * t))\<rparr>]]\<rparr>],
      attrs = [Map.empty],
      svg_attr = [''viewBox'' \<mapsto> ''0 0 100'']\<rparr>"

section \<open>Matrices\<close>

lemma mat_mul_identity_left: "mat_mul mat_identity m = m"
  by (cases m) (auto simp: mat_identity_def)

lemma affine_identity: "affine mat_identity"
  by (simp add: affine_def mat_identity_def)

lemma affine_mat_mul: "affine a \<Longrightarrow> affine b \<Longrightarrow> affine (mat_mul a b)"
  by (cases a; cases b) (auto simp: affine_def)

lemma affine_op_matrix: "affine (op_matrix op)"
  by (cases op) (auto simp: op_matrix_def transform_matrix_def affine_def Let_def mat_identity_def)

lemma mat_apply_mul:
  "affine b \<Longrightarrow>
   mat_apply (mat_mul a b) x y = mat_apply a (fst (mat_apply b x y)) (snd (mat_apply b x y))"
  by (cases a; cases b) (auto simp: affine_def algebra_simps)

lemma affine_product: "list_all affine ms \<Longrightarrow> affine (product_last_first ms)"
  by (induction ms rule: rev_induct)
     (simp_all add: product_last_first_def affine_identity affine_mat_mul)

lemma apply_product:
  "list_all affine ms \<Longrightarrow> mat_apply (product_last_first ms) x y = apply_in_order ms (x, y)"
proof (induction ms rule: rev_induct)
  case Nil
  then show ?case by (simp add: product_last_first_def apply_in_order_def mat_identity_def)
next
  case (snoc m ms)
  then have a: "affine (product_last_first ms)" by (simp add: affine_product)
  have "product_last_first (ms @ [m]) = mat_mul m (product_last_first ms)"
    by (simp add: product_last_first_def)
  then show ?case using snoc a by (simp add: mat_apply_mul apply_in_order_def)
qed

section \<open>\<open>float\<close> does not raise on a match of \<open>float_re\<close>\<close>

lemma digit_not_space: "is_digit c \<Longrightarrow> \<not> is_space c"
  by (auto simp: is_digit_def is_space_def)

lemma digit_facts:
  "\<not> is_digit CHR ''.''" "\<not> is_digit CHR ''+''" "\<not> is_digit CHR ''-''"
  "\<not> is_digit CHR ''e''" "\<not> is_digit CHR ''E''"
  by (simp_all add: is_digit_def)

lemma space_facts:
  "\<not> is_space CHR ''.''" "\<not> is_space CHR ''+''" "\<not> is_space CHR ''-''"
  "\<not> is_space CHR ''e''" "\<not> is_space CHR ''E''"
  by (simp_all add: is_space_def)

lemma strip_no_space:
  assumes "\<forall>c \<in> set s. \<not> is_space c"
  shows "strip s = s"
proof -
  have "dropWhile is_space s = s" using assms by (cases s) auto
  moreover have "dropWhile is_space (rev s) = rev s"
    using assms by (cases "rev s") auto
  ultimately show ?thesis by (simp add: strip_def)
qed

lemma digits_no_underscore: "list_all is_digit ds \<Longrightarrow> CHR ''_'' \<notin> set ds"
  by (auto simp: list_all_iff is_digit_def)

lemma drop_underscores_id: "CHR ''_'' \<notin> set s \<Longrightarrow> drop_underscores prev s = Some s"
  by (induction s arbitrary: prev) auto

lemma py_float_plain:
  assumes "\<forall>c \<in> set s. \<not> is_space c" and "CHR ''_'' \<notin> set s"
  shows "py_float s = float_literal s"
proof -
  have "strip s = s" using assms(1) by (rule strip_no_space)
  moreover have "drop_underscores None s = Some s"
    using assms(2) by (rule drop_underscores_id)
  ultimately show ?thesis by (simp add: py_float_def)
qed

lemma sign_prefix_append:
  assumes "is_sign sg" and "rest = [] \<or> (hd rest \<noteq> CHR ''+'' \<and> hd rest \<noteq> CHR ''-'')"
  shows "sign_prefix (sg @ rest) = sg"
  using assms by (cases rest) (auto simp: is_sign_def sign_prefix_def)

lemma digits_hd:
  "list_all is_digit ds \<Longrightarrow> ds \<noteq> [] \<Longrightarrow> hd ds \<noteq> CHR ''+'' \<and> hd ds \<noteq> CHR ''-''"
  by (cases ds) (auto simp: digit_facts)

lemma exponent_part_ok:
  assumes "is_exp ex"
  shows "\<exists>e. exponent_part ex = Some e"
proof (cases "ex = []")
  case True
  then show ?thesis by (simp add: exponent_part_def)
next
  case False
  with assms obtain c sg ds where ex: "ex = c # sg @ ds"
    and c: "c = CHR ''e'' \<or> c = CHR ''E''"
    and sg: "is_sign sg" and ds: "ds \<noteq> []" "list_all is_digit ds"
    by (auto simp: is_exp_def)
  have "sign_prefix (sg @ ds) = sg"
    using sg ds digits_hd by (intro sign_prefix_append) auto
  then show ?thesis using c ds by (simp add: ex exponent_part_def)
qed

lemma match_exp_shape: "is_exp (match_exp r)"
proof (cases r)
  case Nil
  then show ?thesis by (simp add: match_exp_def is_exp_def)
next
  case (Cons c r1)
  have sg: "is_sign (sign_prefix r1)"
    by (auto simp: sign_prefix_def is_sign_def split: list.splits)
  have ds: "list_all is_digit (takeWhile is_digit (drop (length (sign_prefix r1)) r1))"
    by (simp add: list_all_iff) (meson set_takeWhileD)
  show ?thesis
    unfolding Cons match_exp_def is_exp_def using sg ds
    by (auto simp: Let_def)
qed

lemma exp_hd: "is_exp ex \<Longrightarrow> ex \<noteq> [] \<Longrightarrow> hd ex = CHR ''e'' \<or> hd ex = CHR ''E''"
  by (auto simp: is_exp_def)

lemma exp_chars: "is_exp ex \<Longrightarrow> c \<in> set ex \<Longrightarrow> \<not> is_space c"
  by (auto simp: is_exp_def is_sign_def space_facts list_all_iff digit_not_space)

lemma exp_no_underscore: "is_exp ex \<Longrightarrow> CHR ''_'' \<notin> set ex"
  by (auto simp: is_exp_def is_sign_def dest: digits_no_underscore)

lemma takeWhile_digits:
  assumes "list_all is_digit ds" and "rest = [] \<or> \<not> is_digit (hd rest)"
  shows "takeWhile is_digit (ds @ rest) = ds" and "dropWhile is_digit (ds @ rest) = rest"
proof -
  have a: "\<And>x. x \<in> set ds \<Longrightarrow> is_digit x" using assms(1) by (simp add: list_all_iff)
  have b: "takeWhile is_digit rest = []" "dropWhile is_digit rest = rest"
    using assms(2) by (cases rest; simp)+
  show "takeWhile is_digit (ds @ rest) = ds" using a b by simp
  show "dropWhile is_digit (ds @ rest) = rest" using a b by simp
qed

lemma py_float_no_point:
  assumes sg: "is_sign sg" and ds: "list_all is_digit ds" and ne: "ds \<noteq> []" and ex: "is_exp ex"
  shows "\<exists>x. py_float (sg @ ds @ ex) = Some x"
proof -
  let ?m = "sg @ ds @ ex"
  have "\<forall>c \<in> set ?m. \<not> is_space c"
    using sg ds ex
    by (auto simp: is_sign_def space_facts list_all_iff digit_not_space exp_chars)
  moreover have "CHR ''_'' \<notin> set ?m"
    using sg digits_no_underscore [OF ds] exp_no_underscore [OF ex]
    by (auto simp: is_sign_def)
  ultimately have plain: "py_float ?m = float_literal ?m" by (rule py_float_plain)
  have "sign_prefix (sg @ (ds @ ex)) = sg"
    using sg ds ne digits_hd [of ds] by (intro sign_prefix_append) auto
  then have sp: "sign_prefix ?m = sg" by simp
  have hd3: "ex = [] \<or> \<not> is_digit (hd ex)"
    using ex exp_hd [of ex] by (cases "ex = []") (auto simp: digit_facts)
  note tw = takeWhile_digits [OF ds hd3]
  obtain e where e: "exponent_part ex = Some e" using exponent_part_ok [OF ex] by blast
  have d: "drop (length sg) (sg @ ds @ ex) = ds @ ex" by simp
  show ?thesis
    unfolding plain float_literal_def sp Let_def d tw
    using exp_hd [OF ex] e ne by (cases ex) auto
qed

lemma py_float_point:
  assumes sg: "is_sign sg" and ds: "list_all is_digit ds" and fs: "list_all is_digit fs"
    and ne: "fs \<noteq> []" and ex: "is_exp ex"
  shows "\<exists>x. py_float (sg @ ds @ CHR ''.'' # fs @ ex) = Some x"
proof -
  let ?m = "sg @ ds @ CHR ''.'' # fs @ ex"
  have "\<forall>c \<in> set ?m. \<not> is_space c"
    using sg ds fs ex
    by (auto simp: is_sign_def space_facts list_all_iff digit_not_space exp_chars)
  moreover have "CHR ''_'' \<notin> set ?m"
    using sg digits_no_underscore [OF ds] digits_no_underscore [OF fs]
      exp_no_underscore [OF ex]
    by (auto simp: is_sign_def)
  ultimately have plain: "py_float ?m = float_literal ?m" by (rule py_float_plain)
  have "hd (ds @ CHR ''.'' # fs @ ex) \<noteq> CHR ''+'' \<and> hd (ds @ CHR ''.'' # fs @ ex) \<noteq> CHR ''-''"
    using ds digits_hd [of ds] by (cases "ds = []") auto
  then have "sign_prefix (sg @ (ds @ CHR ''.'' # fs @ ex)) = sg"
    using sg by (intro sign_prefix_append) auto
  then have sp: "sign_prefix ?m = sg" by simp
  have hd2: "CHR ''.'' # fs @ ex = [] \<or> \<not> is_digit (hd (CHR ''.'' # fs @ ex))"
    by (simp add: digit_facts)
  note tw = takeWhile_digits [OF ds hd2]
  have hd3: "ex = [] \<or> \<not> is_digit (hd ex)"
    using ex exp_hd [of ex] by (cases "ex = []") (auto simp: digit_facts)
  note tw2 = takeWhile_digits [OF fs hd3]
  obtain e where e: "exponent_part ex = Some e" using exponent_part_ok [OF ex] by blast
  have d: "drop (length sg) (sg @ ds @ CHR ''.'' # fs @ ex) = ds @ CHR ''.'' # fs @ ex"
    by simp
  show ?thesis
    unfolding plain float_literal_def sp Let_def d tw list.case if_True tw2
    using e ne by simp
qed

lemma match_float_ok:
  assumes "match_float cs = Some m"
  shows "\<exists>x. py_float m = Some x"
proof -
  define sg where "sg = sign_prefix cs"
  define r0 where "r0 = drop (length sg) cs"
  define ds where "ds = takeWhile is_digit r0"
  define r1 where "r1 = dropWhile is_digit r0"
  define fs where
    "fs = (case r1 of [] \<Rightarrow> []
           | c # r2 \<Rightarrow> if c = CHR ''.'' then takeWhile is_digit r2 else [])"
  have sg: "is_sign sg"
    by (auto simp: sg_def sign_prefix_def is_sign_def split: list.splits)
  have ds: "list_all is_digit ds"
    by (simp add: ds_def list_all_iff) (meson set_takeWhileD)
  have fs: "list_all is_digit fs"
    by (auto simp: fs_def list_all_iff split: list.splits dest: set_takeWhileD)
  have m: "match_float cs =
      (if fs \<noteq> [] then Some (sg @ ds @ CHR ''.'' # fs @ match_exp (drop (Suc (length fs)) r1))
       else if ds \<noteq> [] then Some (sg @ ds @ match_exp r1) else None)"
    by (simp add: match_float_def Let_def sg_def r0_def ds_def r1_def fs_def)
  show ?thesis
  proof (cases "fs = []")
    case True
    with assms m have dsne: "ds \<noteq> []" and meq: "m = sg @ ds @ match_exp r1"
      by (auto split: if_splits)
    show ?thesis
      unfolding meq using sg ds dsne match_exp_shape by (rule py_float_no_point)
  next
    case False
    with assms m
    have meq: "m = sg @ ds @ CHR ''.'' # fs @ match_exp (drop (Suc (length fs)) r1)"
      by (auto split: if_splits)
    show ?thesis
      unfolding meq using sg ds fs False match_exp_shape by (rule py_float_point)
  qed
qed

lemma findall_float_ok: "m \<in> set (findall_float k s) \<Longrightarrow> \<exists>x. py_float m = Some x"
proof (induction k s rule: findall_float.induct)
  case (1 k)
  then show ?case by simp
next
  case (2 k c cs)
  then show ?case by simp
next
  case (3 c cs)
  then show ?case by (auto split: option.splits dest: match_float_ok)
qed

lemma those_map_ok:
  "(\<And>x. x \<in> set xs \<Longrightarrow> \<exists>y. f x = Some y) \<Longrightarrow> \<exists>ys. those (map f xs) = Some ys"
proof (induction xs)
  case Nil
  then show ?case by simp
next
  case (Cons a xs)
  then obtain y where "f a = Some y" by auto
  moreover from Cons obtain ys where "those (map f xs) = Some ys" by auto
  ultimately show ?case by simp
qed

lemma parse_numbers_total: "\<exists>vals. parse_numbers s = Inr vals"
proof -
  obtain ys where "those (map py_float (findall_float 0 s)) = Some ys"
    using those_map_ok [of "findall_float 0 s" py_float] findall_float_ok by blast
  then show ?thesis by (simp add: parse_numbers_def)
qed

lemma transform_ops_of_total: "\<exists>ops. transform_ops_of fs = Inr ops"
proof (induction fs)
  case Nil
  then show ?case by simp
next
  case (Cons f fs)
  obtain func args_str where f: "f = (func, args_str)" by (cases f)
  obtain vals where "parse_numbers args_str = Inr vals" using parse_numbers_total by blast
  with Cons show ?case by (auto simp: f)
qed

section \<open>The loop of \<open>parse_transform\<close>\<close>

lemma transform_loop_ops:
  "transform_ops_of fs = Inr ops \<Longrightarrow>
   transform_loop fs m = Inr (foldl (\<lambda>m op. mat_mul (op_matrix op) m) m ops)"
proof (induction fs arbitrary: m ops)
  case Nil
  then show ?case by simp
next
  case (Cons f fs)
  obtain func args_str where f: "f = (func, args_str)" by (cases f)
  from Cons.prems obtain vals ops' where v: "parse_numbers args_str = Inr vals"
    and o: "transform_ops_of fs = Inr ops'" and ops: "ops = (lower func, vals) # ops'"
    by (auto simp: f split: sum.splits)
  show ?case using Cons.IH [OF o] by (simp add: f v ops op_matrix_def)
qed

lemma unrecognized_identity: "\<not> recognized op \<Longrightarrow> op_matrix op = mat_identity"
  by (cases op) (auto simp: recognized_def op_matrix_def transform_matrix_def)

lemma foldl_recognized:
  "foldl (\<lambda>m op. mat_mul (op_matrix op) m) m ops =
   foldl (\<lambda>m op. mat_mul (op_matrix op) m) m (filter recognized ops)"
  by (induction ops arbitrary: m) (simp_all add: unrecognized_identity mat_mul_identity_left)

lemma foldl_product:
  "foldl (\<lambda>m op. mat_mul (op_matrix op) m) m ops = foldr mat_mul (rev (map op_matrix ops)) m"
  by (induction ops arbitrary: m) simp_all

section \<open>Concrete strings\<close>

lemma lower_matrix: "lower ''matrix'' = ''matrix''"
  by code_simp

lemma lower_rotate: "lower ''rotate'' = ''rotate''"
  by code_simp

lemma lower_translate: "lower ''translate'' = ''translate''"
  by code_simp

lemma numbers_three: "parse_numbers ''1,2,3'' = Inr [1, 2, 3]"
  by code_simp

lemma numbers_seven: "parse_numbers ''1,0,0,1,5,5,9'' = Inr [1, 0, 0, 1, 5, 5, 9]"
  by code_simp

lemma numbers_90_5: "parse_numbers ''90, 5'' = Inr [90, 5]"
  by code_simp

lemma numbers_90_1_1: "parse_numbers ''90,1,1'' = Inr [90, 1, 1]"
  by code_simp

lemma numbers_5_10: "parse_numbers ''5,10'' = Inr [5, 10]"
  by code_simp

lemma findall_matrix_seven:
  "findall_func 0 (strip ''matrix(1,0,0,1,5,5,9)'') = [(''matrix'', ''1,0,0,1,5,5,9'')]"
  by code_simp

lemma findall_translate:
  "findall_func 0 (strip ''translate(5,10)'') = [(''translate'', ''5,10'')]"
  by code_simp

lemma ops_translate_skew_scale:
  "transform_ops ''translate(5,10) skewX(30) scale(2)'' =
     Inr [(''translate'', [5, 10]), (''skewx'', [30]), (''scale'', [2])]"
  by code_simp

lemma cos_sin_90: "cos (radians 90) = 0" "sin (radians 90) = 1"
  by (simp_all add: radians_def)

lemma parse_translate:
  "parse_transform ''translate(5,10)'' = Inr ((1, 0, 5), (0, 1, 10), (0, 0, 1))"
  by (simp add: parse_transform_def findall_translate numbers_5_10 lower_translate
        transform_matrix_def mat_identity_def)

lemma split_viewbox: "split_ws (replace_comma ''0 0 200 100'') = [''0'', ''0'', ''200'', ''100'']"
  by code_simp

lemma split_short: "split_ws (replace_comma ''0 0 100'') = [''0'', ''0'', ''100'']"
  by code_simp

lemma float_tokens:
  "py_float ''0'' = Some 0" "py_float ''200'' = Some 200" "py_float ''100'' = Some 100"
  by code_simp+

lemma to_float_100: "to_float (Some ''100'') = 100"
  by code_simp

lemma to_float_50: "to_float (Some ''50'') = 50"
  by code_simp

section \<open>The arguments of \<open>matrix\<close> and \<open>rotate\<close>\<close>

text \<open>
  C3, as stated: a \<open>matrix(...)\<close> whose argument list does not hold exactly 6 numbers is
  skipped. The transform list \<open>matrix(1,0,0,1,5,5,9)\<close> holds one \<open>matrix\<close> function with 7
  numbers, and \<open>parse_transform\<close> returns the translation by \<open>(5, 5)\<close> that the first six
  give, not the identity.
\<close>

theorem matrix_seven_values_counterexample:
  "parse_numbers ''1,0,0,1,5,5,9'' = Inr [1, 0, 0, 1, 5, 5, 9] \<and>
   length [1::real, 0, 0, 1, 5, 5, 9] \<noteq> 6 \<and>
   parse_transform ''matrix(1,0,0,1,5,5,9)'' = Inr ((1, 0, 5), (0, 1, 5), (0, 0, 1)) \<and>
   parse_transform ''matrix(1,0,0,1,5,5,9)'' \<noteq> Inr mat_identity"
  by (simp add: parse_transform_def findall_matrix_seven numbers_seven lower_matrix
        transform_matrix_def mat_identity_def)

text \<open>
  C3, amended: in one pass of the loop of \<open>parse_transform\<close> over a function named
  \<open>matrix\<close> (in any case of letters), fewer than 6 numbers leave the running matrix as
  it is, and 6 or more numbers multiply the matrix of the first six onto it from the
  left, the numbers after the sixth being ignored.
\<close>

theorem matrix_needs_six_values:
  assumes "lower func = ''matrix''" and "parse_numbers args_str = Inr vals"
  shows "(length vals < 6 \<longrightarrow>
            transform_loop ((func, args_str) # rest) m = transform_loop rest m) \<and>
         (length vals \<ge> 6 \<longrightarrow>
            transform_loop ((func, args_str) # rest) m =
              transform_loop rest
                (mat_mul ((vals ! 0, vals ! 2, vals ! 4),
                          (vals ! 1, vals ! 3, vals ! 5), (0, 0, 1)) m))"
  using assms by (simp add: transform_matrix_def mat_mul_identity_left)

theorem matrix_needs_six_values_witness:
  "lower ''matrix'' = ''matrix'' \<and>
   parse_numbers ''1,2,3'' = Inr [1, 2, 3] \<and> length [1::real, 2, 3] < 6 \<and>
   transform_loop [(''matrix'', ''1,2,3'')] mat_identity = Inr mat_identity \<and>
   parse_numbers ''1,0,0,1,5,5,9'' = Inr [1, 0, 0, 1, 5, 5, 9] \<and>
   length [1::real, 0, 0, 1, 5, 5, 9] \<ge> 6 \<and>
   transform_loop [(''matrix'', ''1,0,0,1,5,5,9'')] mat_identity =
     Inr ((1, 0, 5), (0, 1, 5), (0, 0, 1))"
  using matrix_needs_six_values [OF lower_matrix numbers_three, of "[]" mat_identity]
        matrix_needs_six_values [OF lower_matrix numbers_seven, of "[]" mat_identity]
  by (simp add: lower_matrix numbers_three numbers_seven mat_identity_def)

text \<open>
  C10: in one pass of the loop over a function named \<open>rotate\<close>, exactly two numbers
  \<open>ang, v\<close> give the rotation by \<open>ang\<close> degrees about the origin, whatever \<open>v\<close> is: the
  matrix is the one that \<open>rotate\<close> with the single number \<open>ang\<close> gives, and it keeps the
  origin in place. With three or more numbers \<open>ang, cx, cy\<close> the matrix is the rotation
  about \<open>(cx, cy)\<close>, which keeps \<open>(cx, cy)\<close> in place. With two numbers or fewer the
  matrix keeps the origin in place.
\<close>

theorem rotate_center_needs_three_values:
  assumes "lower func = ''rotate''" and "parse_numbers args_str = Inr vals"
  shows "(vals = [ang, v] \<longrightarrow>
            transform_loop ((func, args_str) # rest) m =
              transform_loop rest
                (mat_mul ((cos (radians ang), - sin (radians ang), 0),
                          (sin (radians ang), cos (radians ang), 0), (0, 0, 1)) m) \<and>
            transform_matrix (lower func) vals = transform_matrix ''rotate'' [ang] \<and>
            mat_apply (transform_matrix (lower func) vals) 0 0 = (0, 0)) \<and>
         (vals = ang # cx # cy # extra \<longrightarrow>
            transform_matrix (lower func) vals =
              mat_mul (mat_mul ((1, 0, cx), (0, 1, cy), (0, 0, 1))
                               ((cos (radians ang), - sin (radians ang), 0),
                                (sin (radians ang), cos (radians ang), 0), (0, 0, 1)))
                      ((1, 0, - cx), (0, 1, - cy), (0, 0, 1)) \<and>
            mat_apply (transform_matrix (lower func) vals) cx cy = (cx, cy)) \<and>
         (length vals \<le> 2 \<longrightarrow> mat_apply (transform_matrix (lower func) vals) 0 0 = (0, 0))"
  using assms by (simp add: transform_matrix_def Let_def algebra_simps)

theorem rotate_center_needs_three_values_witness:
  "lower ''rotate'' = ''rotate'' \<and>
   parse_numbers ''90, 5'' = Inr [90, 5] \<and>
   transform_loop [(''rotate'', ''90, 5'')] mat_identity =
     Inr ((0, - 1, 0), (1, 0, 0), (0, 0, 1)) \<and>
   parse_numbers ''90,1,1'' = Inr [90, 1, 1] \<and>
   transform_matrix (lower ''rotate'') [90, 1, 1] = ((0, - 1, 2), (1, 0, 0), (0, 0, 1)) \<and>
   mat_apply (transform_matrix (lower ''rotate'') [90, 1, 1]) 1 1 = (1, 1)"
  using rotate_center_needs_three_values
          [OF lower_rotate numbers_90_5, of 90 5 "[]" mat_identity 0 0 "[]"]
        rotate_center_needs_three_values
          [OF lower_rotate numbers_90_1_1, of 90 0 "[]" mat_identity 1 1 "[]"]
  by (simp add: lower_rotate numbers_90_5 numbers_90_1_1 cos_sin_90 mat_identity_def
        transform_matrix_def Let_def)


section \<open>The order of composition\<close>

text \<open>
  C5: for every transform list, whose recognized ops in textual order have the matrices
  \<open>M1, ..., Mn\<close>, \<open>parse_transform\<close> returns the product \<open>Mn \<times> ... \<times> M1\<close>: each matrix is
  multiplied onto the running result from the left, the ops that are not recognized
  changing nothing. Applied to a point, the result applies \<open>M1\<close> first and the matrix of
  the last-listed function last, outermost.
\<close>

theorem composition_order:
  "\<exists>ops. transform_ops s = Inr ops \<and>
      parse_transform s = Inr (product_last_first (map op_matrix (filter recognized ops))) \<and>
      (\<forall>x y. mat_apply (product_last_first (map op_matrix (filter recognized ops))) x y =
               apply_in_order (map op_matrix (filter recognized ops)) (x, y))"
proof -
  obtain ops where ops: "transform_ops_of (findall_func 0 (strip s)) = Inr ops"
    using transform_ops_of_total by blast
  have "parse_transform s = transform_loop (findall_func 0 (strip s)) mat_identity"
    by (simp add: parse_transform_def strip_def)
  also have "\<dots> = Inr (foldl (\<lambda>m op. mat_mul (op_matrix op) m) mat_identity ops)"
    by (rule transform_loop_ops [OF ops])
  also have "\<dots> = Inr (foldl (\<lambda>m op. mat_mul (op_matrix op) m) mat_identity
                           (filter recognized ops))"
    by (simp add: foldl_recognized [of mat_identity ops])
  also have "\<dots> = Inr (product_last_first (map op_matrix (filter recognized ops)))"
    by (simp only: foldl_product product_last_first_def)
  finally have p: "parse_transform s =
      Inr (product_last_first (map op_matrix (filter recognized ops)))" .
  have "list_all affine (map op_matrix (filter recognized ops))"
    by (simp add: list_all_iff affine_op_matrix)
  then have "\<forall>x y. mat_apply (product_last_first (map op_matrix (filter recognized ops))) x y =
               apply_in_order (map op_matrix (filter recognized ops)) (x, y)"
    by (simp add: apply_product)
  with ops p show ?thesis by (auto simp: transform_ops_def)
qed

theorem composition_order_witness:
  "transform_ops ''translate(5,10) skewX(30) scale(2)'' =
     Inr [(''translate'', [5, 10]), (''skewx'', [30]), (''scale'', [2])] \<and>
   parse_transform ''translate(5,10) skewX(30) scale(2)'' =
     Inr ((2, 0, 10), (0, 2, 20), (0, 0, 1)) \<and>
   mat_apply ((2, 0, 10), (0, 2, 20), (0, 0, 1)) 0 0 = (10, 20) \<and>
   apply_in_order [((1, 0, 5), (0, 1, 10), (0, 0, 1)), ((2, 0, 0), (0, 2, 0), (0, 0, 1))] (0, 0) =
     (10, 20)"
  using composition_order [of "''translate(5,10) skewX(30) scale(2)''"]
  by (simp add: ops_translate_skew_scale recognized_def op_matrix_def transform_matrix_def
        product_last_first_def apply_in_order_def mat_identity_def)

section \<open>The coordinate mapping of \<open>main\<close>\<close>

lemma guarded_pos: "guarded_width vb > 0" "guarded_height vb > 0"
  by (auto simp: guarded_width_def guarded_height_def max_def split: prod.splits)


lemma aspect_ratio_pos: "aspect_ratio vb > 0"
  by (simp add: aspect_ratio_def guarded_pos)

lemma coordinate_mapping_eq:
  "coordinate_mapping (minX, minY, maxX, maxY) ww wh =
     Inr ((if aspect_ratio (minX, minY, maxX, maxY) > 1
           then (real_of_int (min ww wh) * aspect_ratio (minX, minY, maxX, maxY),
                 real_of_int (min ww wh))
           else (real_of_int (min ww wh),
                 real_of_int (min ww wh) / aspect_ratio (minX, minY, maxX, maxY))),
          (minX - guarded_width (minX, minY, maxX, maxY) * (2 / 100),
           - (maxY + guarded_height (minX, minY, maxX, maxY) * (2 / 100)),
           maxX + guarded_width (minX, minY, maxX, maxY) * (2 / 100),
           - (minY - guarded_height (minX, minY, maxX, maxY) * (2 / 100))))"
proof -
  let ?vb = "(minX, minY, maxX, maxY)"
  have w: "guarded_width ?vb > 0" and h: "guarded_height ?vb > 0" by (rule guarded_pos)+
  have wd: "max (maxX - minX) (1 / 10 ^ 6) = guarded_width ?vb"
    and hd: "max (maxY - minY) (1 / 10 ^ 6) = guarded_height ?vb"
    by (simp_all add: guarded_width_def guarded_height_def)
  from w h have ar: "guarded_width ?vb / guarded_height ?vb \<noteq> 0" by simp
  from h have h0: "guarded_height ?vb \<noteq> 0" by simp
  show ?thesis
    unfolding coordinate_mapping_def prod.case wd hd Let_def py_div_def aspect_ratio_def
    using ar h0 by (simp del: max.absorb1 max.absorb2 max.absorb3 max.absorb4)
qed

lemma mapping_200_100:
  "coordinate_mapping (0, 0, 200, 100) 800 600 = Inr ((1200, 600), (- 4, - 102, 204, 2))"
  by (simp add: coordinate_mapping_eq aspect_ratio_def guarded_width_def guarded_height_def)

text \<open>
  C6: for every extent \<open>(minX, minY, maxX, maxY)\<close>, with \<open>w\<close> and \<open>h\<close> its width and height
  floored to the epsilon, \<open>dx = 0.02 * w\<close> and \<open>dy = 0.02 * h\<close>, the world rectangle given
  to the drawing surface runs in X from \<open>minX - dx\<close> to \<open>maxX + dx\<close>, and in Y from
  \<open>- (maxY + dy)\<close> to \<open>- (minY - dy)\<close>.
\<close>

theorem world_bounds:
  "\<exists>window. coordinate_mapping (minX, minY, maxX, maxY) ww wh =
      Inr (window,
           (minX - 0.02 * guarded_width (minX, minY, maxX, maxY),
            - (maxY + 0.02 * guarded_height (minX, minY, maxX, maxY)),
            maxX + 0.02 * guarded_width (minX, minY, maxX, maxY),
            - (minY - 0.02 * guarded_height (minX, minY, maxX, maxY))))"
  by (simp add: coordinate_mapping_eq)

theorem world_bounds_witness:
  "coordinate_mapping (0, 0, 10, 10) 640 480 =
     Inr ((480, 480), (- (1 / 5), - (51 / 5), 51 / 5, 1 / 5))"
  using world_bounds [of 0 0 10 10 640 480]
  by (simp add: coordinate_mapping_eq aspect_ratio_def guarded_width_def guarded_height_def)



text \<open>
  C2, as stated: the larger of the window's dimensions is left unchanged. For a window
  of 800 by 600 and the extent \<open>(0, 0, 200, 100)\<close> the new size is 1200 by 600: the
  larger dimension, the width 800, is not kept.
\<close>

theorem larger_dimension_counterexample:
  "coordinate_mapping (0, 0, 200, 100) 800 600 = Inr ((1200, 600), (- 4, - 102, 204, 2)) \<and>
   \<not> larger_dimension_unchanged 800 600 (1200, 600)"
  by (simp add: mapping_200_100 larger_dimension_unchanged_def)

text \<open>
  C2, amended: with \<open>win_m\<close> the smaller of the window's width and height (not negative)
  and \<open>ar\<close> the ratio of the extent's guarded width and height, the new size is
  \<open>(win_m * ar, win_m)\<close> when \<open>ar > 1\<close> and \<open>(win_m, win_m / ar)\<close> otherwise. So one
  dimension of it is \<open>win_m\<close>, neither is below \<open>win_m\<close>, its width is \<open>ar\<close> times
  its height, and the larger of the window's dimensions plays no part: a square window
  of side \<open>win_m\<close> gives the same mapping.
\<close>

theorem window_size:
  assumes "0 \<le> ww" and "0 \<le> wh"
  shows "\<exists>w h world. coordinate_mapping vb ww wh = Inr ((w, h), world) \<and>
           (w, h) = (if aspect_ratio vb > 1
                     then (real_of_int (min ww wh) * aspect_ratio vb, real_of_int (min ww wh))
                     else (real_of_int (min ww wh), real_of_int (min ww wh) / aspect_ratio vb)) \<and>
           (w = real_of_int (min ww wh) \<or> h = real_of_int (min ww wh)) \<and>
           real_of_int (min ww wh) \<le> w \<and> real_of_int (min ww wh) \<le> h \<and>
           w = aspect_ratio vb * h \<and>
           coordinate_mapping vb ww wh = coordinate_mapping vb (min ww wh) (min ww wh)"
proof -
  obtain a b c d where vb: "vb = (a, b, c, d)" by (cases vb) auto
  let ?m = "real_of_int (min ww wh)"
  have m: "0 \<le> ?m" using assms by simp
  have ar: "aspect_ratio vb > 0" by (rule aspect_ratio_pos)
  show ?thesis
  proof (cases "aspect_ratio vb > 1")
    case True
    have "?m * 1 \<le> ?m * aspect_ratio vb" using m True by (intro mult_left_mono) simp_all
    then show ?thesis using True unfolding vb coordinate_mapping_eq
      by (simp add: mult.commute)
  next
    case False
    have "?m / 1 \<le> ?m / aspect_ratio vb"
      using m False ar by (intro divide_left_mono) simp_all
    then show ?thesis using False ar unfolding vb coordinate_mapping_eq
      by simp
  qed
qed

theorem window_size_witness:
  "(0::int) \<le> 800 \<and> (0::int) \<le> 600 \<and>
   coordinate_mapping (0, 0, 200, 100) 800 600 = Inr ((1200, 600), (- 4, - 102, 204, 2)) \<and>
   coordinate_mapping (0, 0, 200, 100) 800 600 = coordinate_mapping (0, 0, 200, 100) 600 600"
  using window_size [of 800 600 "(0, 0, 200, 100)"]
  by (simp add: coordinate_mapping_eq aspect_ratio_def guarded_width_def guarded_height_def)

section \<open>Sampling a segment\<close>

lemma linspace01_length: "length (linspace01 n) = n"
  by (simp add: linspace01_def)

lemma linspace01_nth: "i < n \<Longrightarrow> linspace01 n ! i = real i / real (n - 1)"
  by (auto simp: linspace01_def)

lemma linspace01_hd: "0 < n \<Longrightarrow> hd (linspace01 n) = 0"
  by (simp add: hd_conv_nth linspace01_length linspace01_nth flip: length_0_conv)

lemma linspace01_last: "2 \<le> n \<Longrightarrow> last (linspace01 n) = 1"
  by (simp add: last_conv_nth linspace01_length linspace01_nth flip: length_0_conv)

lemma linspace01_3: "linspace01 3 = [0, 1 / 2, 1]"
  by (simp add: linspace01_def upt_rec numeral_3_eq_3 numeral_2_eq_2)

lemma linspace01_2: "linspace01 2 = [0, 1]"
  by (simp add: linspace01_def upt_rec numeral_2_eq_2)

lemma ceiling_examples: "\<lceil>(17::real) / 8\<rceil> = 3" "\<lceil>(4::real) / 8\<rceil> = 1"
  by (simp_all add: ceiling_eq_iff)

text \<open>
  C7: for every segment and every \<open>seg_unit > 0\<close> the flattener takes
  \<open>n = max(2, ceil(length / seg_unit))\<close> parameter values, the \<open>i\<close>-th being \<open>i / (n - 1)\<close>:
  they start at 0, end at 1 and are \<open>1 / (n - 1)\<close> apart, and the segment's points at
  them are the samples. A segment of length 17 with \<open>seg_unit = 8\<close> gives 3 samples and a
  segment of length 0 gives 2.
\<close>

theorem sample_count:
  assumes "seg_unit > 0"
  shows "\<exists>n. interp_num seg seg_unit = Inr (int n) \<and>
           int n = max 2 \<lceil>seg_length seg / seg_unit\<rceil> \<and>
           sample_segment seg seg_unit = Inr (map (seg_point seg) (linspace01 n)) \<and>
           length (linspace01 n) = n \<and>
           hd (linspace01 n) = 0 \<and> last (linspace01 n) = 1 \<and>
           (\<forall>i < n. linspace01 n ! i = real i / real (n - 1)) \<and>
           (\<forall>i. Suc i < n \<longrightarrow> linspace01 n ! Suc i - linspace01 n ! i = 1 / real (n - 1)) \<and>
           (seg_length seg = 17 \<and> seg_unit = 8 \<longrightarrow> n = 3) \<and>
           (seg_length seg = 0 \<longrightarrow> n = 2)"
proof -
  define k where "k = max 2 \<lceil>seg_length seg / seg_unit\<rceil>"
  define n where "n = nat k"
  have k2: "2 \<le> k" by (simp add: k_def)
  then have n2: "2 \<le> n" and kn: "k = int n" by (simp_all add: n_def)
  have i: "interp_num seg seg_unit = Inr (int n)"
    using assms by (simp add: interp_num_def k_def [symmetric] kn)
  have s: "sample_segment seg seg_unit = Inr (map (seg_point seg) (linspace01 n))"
    by (simp add: sample_segment_def i)
  have sp: "\<forall>i. Suc i < n \<longrightarrow> linspace01 n ! Suc i - linspace01 n ! i = 1 / real (n - 1)"
    by (auto simp: linspace01_nth field_simps)
  have c17: "seg_length seg = 17 \<and> seg_unit = 8 \<longrightarrow> n = 3"
  proof
    assume "seg_length seg = 17 \<and> seg_unit = 8"
    then have "\<lceil>seg_length seg / seg_unit\<rceil> = 3" by (simp add: ceiling_eq_iff)
    then show "n = 3" by (simp add: n_def k_def)
  qed
  have c0: "seg_length seg = 0 \<longrightarrow> n = 2" by (simp add: n_def k_def)
  show ?thesis
    using i s n2 sp c17 c0 kn [symmetric, unfolded k_def]
    by (intro exI [of _ n])
       (simp add: linspace01_length linspace01_hd linspace01_last linspace01_nth)
qed

theorem sample_count_witness:
  "(8::real) > 0 \<and> seg_length line17 = 17 \<and>
   sample_segment line17 8 = Inr [Complex 0 0, Complex (17 / 2) 0, Complex 17 0] \<and>
   seg_length dot0 = 0 \<and>
   sample_segment dot0 8 = Inr [Complex 3 4, Complex 3 4] \<and>
   linspace01 2 ! 1 = real 1 / real (2 - 1) \<and>
   linspace01 2 ! Suc 0 - linspace01 2 ! 0 = 1 / real (2 - 1)"
proof -
  have a: "sample_segment line17 8 = Inr (map (seg_point line17) (linspace01 3))"
    using sample_count [of 8 line17] by (auto simp: line17_def)
  have b: "sample_segment dot0 8 = Inr (map (seg_point dot0) (linspace01 2))"
    using sample_count [of 8 dot0] by (auto simp: dot0_def)
  show ?thesis using a b by (simp add: linspace01_3 linspace01_2) (simp add: line17_def dot0_def)
qed

section \<open>Rings\<close>

lemma closed_ring_append_first: "ps \<noteq> [] \<Longrightarrow> closed_ring (map f (ps @ [ps ! 0]))"
  by (cases ps) (simp_all add: closed_ring_def)

lemma make_ring_closed: "make_ring m subpath seg_unit = Inr r \<Longrightarrow> closed_ring r"
  unfolding make_ring_def Let_def
  by (auto split: sum.splits if_splits intro!: closed_ring_append_first simp del: map_append)

lemma make_rings_closed:
  "make_rings m subpaths seg_unit = Inr rs \<Longrightarrow> r \<in> set rs \<Longrightarrow> closed_ring r"
proof (induction subpaths arbitrary: rs)
  case Nil
  then show ?case by simp
next
  case (Cons sp sps)
  then show ?case by (auto split: sum.splits dest: make_ring_closed)
qed

lemma build_polys_closed:
  "build_polys zs seg_unit = Inr (polys, new_attrs) \<Longrightarrow> poly \<in> set polys \<Longrightarrow> r \<in> set poly \<Longrightarrow>
   closed_ring r"
proof (induction zs arbitrary: polys new_attrs)
  case Nil
  then show ?case by simp
next
  case (Cons z zs)
  obtain p a where z: "z = (p, a)" by (cases z)
  from Cons.prems(1) obtain poly0 a0 polys0 attrs0
    where pp: "path_polygon p a seg_unit = Inr (poly0, a0)"
      and bp: "build_polys zs seg_unit = Inr (polys0, attrs0)"
      and polys: "polys = poly0 # polys0"
    by (auto simp: z split: sum.splits prod.splits)
  show ?case
  proof (cases "poly = poly0")
    case True
    from pp obtain m where "make_rings m (continuous_subpaths p) seg_unit = Inr poly0"
      by (auto simp: path_polygon_def Let_def split: sum.splits)
    then show ?thesis using True Cons.prems(3) by (auto dest: make_rings_closed)
  next
    case False
    with Cons.prems(2) polys have "poly \<in> set polys0" by simp
    then show ?thesis using Cons.IH [OF bp] Cons.prems(3) by simp
  qed
qed

lemma sample_segments_ok:
  assumes "seg_unit \<noteq> 0"
  shows "\<exists>arrays. sample_segments segs seg_unit = Inr arrays \<and> length arrays = length segs \<and>
           (\<forall>a \<in> set arrays. a \<noteq> [])"
proof (induction segs)
  case Nil
  then show ?case by simp
next
  case (Cons seg segs)
  then obtain arrays where a: "sample_segments segs seg_unit = Inr arrays"
    "length arrays = length segs" "\<forall>a \<in> set arrays. a \<noteq> []" by blast
  have "2 \<le> max 2 \<lceil>seg_length seg / seg_unit\<rceil>" by simp
  then have "linspace01 (nat (max 2 \<lceil>seg_length seg / seg_unit\<rceil>)) \<noteq> []"
    by (auto simp: linspace01_def)
  then show ?case using assms a
    by (simp add: sample_segment_def interp_num_def)
qed

lemma make_ring_ok:
  assumes "seg_unit \<noteq> 0" and "subpath \<noteq> []"
  shows "\<exists>r. make_ring m subpath seg_unit = Inr r"
proof -
  obtain arrays where a: "sample_segments subpath seg_unit = Inr arrays"
    "length arrays = length subpath" "\<forall>a \<in> set arrays. a \<noteq> []"
    using sample_segments_ok [OF assms(1)] by blast
  from a(2) assms(2) have ne: "arrays \<noteq> []" by auto
  then have "concat arrays \<noteq> []" using a(3) by (cases arrays) auto
  then show ?thesis using a(1) ne by (simp add: make_ring_def Let_def)
qed

lemma example_attr:
  "normalize_attr [''transform'' \<mapsto> ''translate(5,10)''] = [''transform'' \<mapsto> ''translate(5,10)'']"
  by (simp add: normalize_attr_def)

lemma example_polygon:
  "path_polygon example_path [''transform'' \<mapsto> ''translate(5,10)''] 8 =
     Inr ([[(5, 10), (27 / 2, 10), (22, 10), (22, 10), (22, 14), (5, 10)]],
          [''transform'' \<mapsto> ''translate(5,10)''])"
  by (simp add: path_polygon_def example_attr parse_translate example_path_def line17_def
        make_ring_def sample_segment_def interp_num_def ceiling_examples
        linspace01_3 linspace01_2)

lemma example_read_svg:
  "read_svg example_doc 8 =
     Inr ([[[(5, 10), (27 / 2, 10), (22, 10), (22, 10), (22, 14), (5, 10)]]],
          [[''transform'' \<mapsto> ''translate(5,10)'']], (0, 0), (0, 0, 17, 4))"
  by (simp add: read_svg_def example_doc_def example_polygon to_float_def read_viewbox_def
        vb_attr_of_def viewbox_without_attr_def)
     (simp add: example_path_def)

text \<open>
  C8: for every document that \<open>read_svg\<close> reads, every ring of every polygon it returns
  is not empty and ends with its first point. And a ring is produced for every subpath
  that has a segment, when \<open>seg_unit\<close> is not 0.
\<close>

theorem ring_closure:
  "(read_svg doc seg_unit = Inr (polys, new_attrs, svg_size, viewbox) \<longrightarrow>
      (\<forall>poly \<in> set polys. \<forall>r \<in> set poly. r \<noteq> [] \<and> last r = hd r)) \<and>
   (seg_unit \<noteq> 0 \<and> subpath \<noteq> [] \<longrightarrow>
      (\<exists>r. make_ring m subpath seg_unit = Inr r \<and> r \<noteq> [] \<and> last r = hd r))"
proof
  show "read_svg doc seg_unit = Inr (polys, new_attrs, svg_size, viewbox) \<longrightarrow>
      (\<forall>poly \<in> set polys. \<forall>r \<in> set poly. r \<noteq> [] \<and> last r = hd r)"
  proof (intro impI ballI)
    fix poly r
    assume rs: "read_svg doc seg_unit = Inr (polys, new_attrs, svg_size, viewbox)"
      and p: "poly \<in> set polys" and r: "r \<in> set poly"
    from rs have "build_polys (zip (paths doc) (attrs doc)) seg_unit = Inr (polys, new_attrs)"
      by (auto simp: read_svg_def Let_def split: sum.splits)
    from build_polys_closed [OF this p r] show "r \<noteq> [] \<and> last r = hd r"
      by (simp add: closed_ring_def)
  qed
  show "seg_unit \<noteq> 0 \<and> subpath \<noteq> [] \<longrightarrow>
      (\<exists>r. make_ring m subpath seg_unit = Inr r \<and> r \<noteq> [] \<and> last r = hd r)"
    using make_ring_ok [of seg_unit subpath m] make_ring_closed [of m subpath seg_unit]
    by (auto simp: closed_ring_def)
qed

theorem ring_closure_witness:
  "read_svg example_doc 8 =
     Inr ([[[(5, 10), (27 / 2, 10), (22, 10), (22, 10), (22, 14), (5, 10)]]],
          [[''transform'' \<mapsto> ''translate(5,10)'']], (0, 0), (0, 0, 17, 4)) \<and>
   last [(5, 10), (27 / 2, 10), (22, 10), (22, 10), (22, 14), (5::real, 10::real)] =
     hd [(5, 10), (27 / 2, 10), (22, 10), (22, 10), (22, 14), (5, 10)] \<and>
   (8::real) \<noteq> 0 \<and> [line17] \<noteq> [] \<and>
   make_ring mat_identity [line17] 8 = Inr [(0, 0), (17 / 2, 0), (17, 0), (0, 0)]"
  using ring_closure [of example_doc 8
          "[[[(5, 10), (27 / 2, 10), (22, 10), (22, 10), (22, 14), (5, 10)]]]"
          "[[''transform'' \<mapsto> ''translate(5,10)'']]" "(0, 0)" "(0, 0, 17, 4)"
          "[line17]" mat_identity]
  by (simp add: example_read_svg make_ring_def sample_segment_def interp_num_def line17_def
        ceiling_examples linspace01_3 mat_identity_def)

section \<open>The viewbox of \<open>read_svg\<close> and the rectangle of \<open>main\<close>\<close>

lemma read_svg_viewbox_and_size:
  "read_svg doc_viewbox_and_size 8 = Inr ([], [], (100, 50), (0, 0, 200, 100))"
  by (simp add: read_svg_def doc_viewbox_and_size_def to_float_100 to_float_50 read_viewbox_def
        vb_attr_of_def split_viewbox float_tokens)

text \<open>
  C1, as stated: the extent the world-coordinate mapping is derived from equals a
  viewBox of four numbers, whatever the width and height. For the document with
  viewBox \<open>0 0 200 100\<close>, width 100 and height 50, \<open>read_svg\<close> returns the viewbox
  \<open>(0, 0, 200, 100)\<close>, but the rectangle \<open>main\<close> derives the mapping from is
  \<open>(0, 0, 100, 50)\<close>.
\<close>

theorem viewbox_not_used_counterexample:
  "vb_attr_of (svg_attr doc_viewbox_and_size) = Some ''0 0 200 100'' \<and>
   read_svg doc_viewbox_and_size 8 = Inr ([], [], (100, 50), (0, 0, 200, 100)) \<and>
   main_extent doc_viewbox_and_size = Inr (0, 0, 100, 50) \<and>
   main_extent doc_viewbox_and_size \<noteq> Inr (0, 0, 200, 100)"
  by (simp add: main_extent_def read_svg_viewbox_and_size main_vb_def)
     (simp add: doc_viewbox_and_size_def vb_attr_of_def)

text \<open>
  C1, amended: when the viewBox attribute splits into four tokens that are all
  numbers, the viewbox that \<open>read_svg\<close> returns is these four numbers, whatever the
  width and height are. The rectangle \<open>main\<close> derives the mapping from is not that
  viewbox: it is \<open>(0, 0, width, height)\<close> when width and height are both positive, and
  the bounds of the polygons' points otherwise.
\<close>

theorem viewbox_wins_in_read_svg:
  assumes "vb_attr_of (svg_attr doc) = Some s"
    and "split_ws (replace_comma s) = [p0, p1, p2, p3]"
    and "py_float p0 = Some f0" and "py_float p1 = Some f1"
    and "py_float p2 = Some f2" and "py_float p3 = Some f3"
  shows "read_viewbox (svg_attr doc) (paths doc) width height = Inr (f0, f1, f2, f3) \<and>
         (read_svg doc 8 = Inr (polys, new_attrs, (w, h), viewbox) \<longrightarrow>
            viewbox = (f0, f1, f2, f3) \<and>
            main_extent doc =
              Inr (if w > 0 \<and> h > 0 then (0, 0, w, h) else compute_bounds polys))"
proof -
  have ne: "s \<noteq> []" using assms(2) by (auto simp: split_ws_def replace_comma_def)
  have rv: "\<And>width height.
      read_viewbox (svg_attr doc) (paths doc) width height = Inr (f0, f1, f2, f3)"
    using assms ne by (simp add: read_viewbox_def)
  show ?thesis
    using rv by (auto simp: read_svg_def main_extent_def main_vb_def Let_def split: sum.splits)
qed

theorem viewbox_wins_in_read_svg_witness:
  "vb_attr_of (svg_attr doc_viewbox_and_size) = Some ''0 0 200 100'' \<and>
   split_ws (replace_comma ''0 0 200 100'') = [''0'', ''0'', ''200'', ''100''] \<and>
   py_float ''0'' = Some 0 \<and> py_float ''200'' = Some 200 \<and> py_float ''100'' = Some 100 \<and>
   read_viewbox (svg_attr doc_viewbox_and_size) (paths doc_viewbox_and_size) 100 50 =
     Inr (0, 0, 200, 100) \<and>
   read_svg doc_viewbox_and_size 8 = Inr ([], [], (100, 50), (0, 0, 200, 100)) \<and>
   main_extent doc_viewbox_and_size = Inr (0, 0, 100, 50)"
proof -
  have v: "vb_attr_of (svg_attr doc_viewbox_and_size) = Some ''0 0 200 100''"
    by (simp add: doc_viewbox_and_size_def vb_attr_of_def)
  show ?thesis
    using viewbox_wins_in_read_svg
            [OF v split_viewbox float_tokens(1) float_tokens(1) float_tokens(2) float_tokens(3),
             of 100 50 "[]" "[]" 100 50 "(0, 0, 200, 100)"]
    by (simp add: v split_viewbox float_tokens read_svg_viewbox_and_size)
qed

text \<open>
  C4, at the document whose viewBox \<open>0 0 100\<close> has three numbers and which declares no
  width and no height: the viewbox \<open>read_svg\<close> returns is \<open>(0, 0, width, height)\<close> with
  both 0, so \<open>(0, 0, 0, 0)\<close>, where the branch for a document without a viewBox gives the
  union \<open>(1, 2, 5, 6)\<close> of the paths' bounding boxes. (The rectangle of \<open>main\<close> for this
  document is the bounds of the polygons' points, \<open>(1, 2, 5, 6)\<close>.)
\<close>

theorem short_viewbox_degenerate:
  "vb_attr_of (svg_attr doc_short_viewbox) = Some ''0 0 100'' \<and>
   split_ws (replace_comma ''0 0 100'') = [''0'', ''0'', ''100''] \<and>
   to_float (svg_attr doc_short_viewbox ''width'') = 0 \<and>
   to_float (svg_attr doc_short_viewbox ''height'') = 0 \<and>
   read_viewbox (svg_attr doc_short_viewbox) (paths doc_short_viewbox) 0 0 = Inr (0, 0, 0, 0) \<and>
   viewbox_without_attr (paths doc_short_viewbox) 0 0 = (1, 2, 5, 6) \<and>
   read_svg doc_short_viewbox 8 =
     Inr ([[[(1, 2), (5, 2), (5, 2), (5, 6), (1, 2)]]], [Map.empty], (0, 0), (0, 0, 0, 0)) \<and>
   main_extent doc_short_viewbox = Inr (1, 2, 5, 6)"
proof -
  have a: "vb_attr_of (svg_attr doc_short_viewbox) = Some ''0 0 100''"
    and w: "to_float (svg_attr doc_short_viewbox ''width'') = 0"
    and h: "to_float (svg_attr doc_short_viewbox ''height'') = 0"
    by (simp_all add: doc_short_viewbox_def vb_attr_of_def to_float_def)
  have v: "read_viewbox (svg_attr doc_short_viewbox) (paths doc_short_viewbox) 0 0 =
      Inr (0, 0, 0, 0)"
    by (simp add: read_viewbox_def a split_short)
  have b: "viewbox_without_attr (paths doc_short_viewbox) 0 0 = (1, 2, 5, 6)"
    by (simp add: doc_short_viewbox_def viewbox_without_attr_def)
  have p: "build_polys (zip (paths doc_short_viewbox) (attrs doc_short_viewbox)) 8 =
      Inr ([[[(1, 2), (5, 2), (5, 2), (5, 6), (1, 2)]]], [Map.empty])"
    by (simp add: doc_short_viewbox_def path_polygon_def normalize_attr_def parse_transform_def
          make_ring_def sample_segment_def interp_num_def ceiling_examples linspace01_2
          mat_identity_def)
  have r: "read_svg doc_short_viewbox 8 =
      Inr ([[[(1, 2), (5, 2), (5, 2), (5, 6), (1, 2)]]], [Map.empty], (0, 0), (0, 0, 0, 0))"
    by (simp add: read_svg_def w h v p)
  have e: "main_extent doc_short_viewbox = Inr (1, 2, 5, 6)"
    by (simp add: main_extent_def r main_vb_def compute_bounds_def)
  show ?thesis using a w h v b r e by (simp add: split_short)
qed


end
